theory Spec2Isabelle
  imports Complex_Main
begin

section \<open>Numbers, strings and failures\<close>

text \<open>
  A JavaScript number is modelled by a real: the rounding of the IEEE doubles is not
  modelled, and statements about a computed number are statements about the formula
  that the source evaluates. A value that is not a finite number (\<open>NaN\<close>,
  \<open>Infinity\<close>, \<open>-Infinity\<close>, or \<open>undefined\<close> read past the end of an array and
  then used in arithmetic) is \<open>None\<close> in the type \<open>number\<close>. Where the source
  produces such a value from finite operands (a division by zero, \<open>Math.sqrt\<close> of a
  negative number, a read out of range), the model says so; where this type is used the
  source never turns a non-finite value back into a finite one, so \<open>None\<close> is passed
  on to every value computed from it. Overflow and underflow are written out where
  prices are generated: the prices of \<open>generatePath\<close> are products of exponentials
  and do leave the range of the doubles, and they have the type \<open>double\<close> of the
  Monte Carlo section. The Black-Scholes pricer and the optimizer are modelled over
  the reals throughout.
\<close>

type_synonym number = "real option"

datatype failure =
    TypeError       \<comment> \<open>indexing \<open>undefined\<close> throws\<close>
  | NoMoreDraws     \<comment> \<open>the supplied uniform draws ran out inside a loop that is still retrying\<close>
  | NotFinite       \<comment> \<open>an array handed to \<open>sort\<close> or returned holds a non-finite number\<close>

text \<open>\<open>String.prototype.toLowerCase\<close>, on ASCII strings.\<close>

definition lowerChar :: "char \<Rightarrow> char" where
  "lowerChar c =
     (if (65::nat) \<le> of_char c \<and> of_char c \<le> (90::nat)
      then char_of (of_char c + (32::nat)) else c)"

definition toLowerCase :: "string \<Rightarrow> string" where
  "toLowerCase s = map lowerChar s"

text \<open>\<open>Array.prototype.reduce((sum, x) => sum + x, 0)\<close>: a left fold from 0.\<close>

definition reduce_sum :: "real list \<Rightarrow> real" where
  "reduce_sum xs = foldl (\<lambda>sum x. sum + x) 0 xs"

section \<open>Black-Scholes pricing (lib/black-scholes.js)\<close>

text \<open>
  The parameter objects of the pricer and of the simulator share the fields
  \<open>K\<close>, \<open>r\<close>, \<open>T\<close> and \<open>type\<close>; they are the common root of the two records.
\<close>

record Contract =
  K :: real
  r :: real
  T :: real
  type :: string


record 'a Priced =
  price :: 'a


definition erfApprox :: "real \<Rightarrow> real" where
  \<comment> \<open>the local \<open>erf\<close> of \<open>normalCDF\<close>, as a function of \<open>x = |x| / sqrt 2\<close>\<close>
  "erfApprox x =
     (let a1 = 0.254829592; a2 = - 0.284496736; a3 = 1.421413741;
          a4 = - 1.453152027; a5 = 1.061405429; p = 0.3275911;
          t = 1.0 / (1.0 + p * x)
      in 1.0 - (((((a5 * t + a4) * t) + a3) * t + a2) * t + a1) * t * exp (- x * x))"

definition normalCDF :: "real \<Rightarrow> real" where
  "normalCDF x =
     (let sign = (if x < 0 then - 1 else 1);
          x' = \<bar>x\<bar> / sqrt 2.0
      in 0.5 * (1.0 + sign * erfApprox x'))"




definition isCall :: "string \<Rightarrow> bool" where
  \<comment> \<open>\<open>type.toLowerCase() === 'call'\<close>\<close>
  "isCall ty = (toLowerCase ty = ''call'')"





section \<open>Monte Carlo engine (lib/monte-carlo.js)\<close>

text \<open>
  \<open>Math.random()\<close> is an explicit input: the list of the uniform draws, each in
  \<open>[0, 1)\<close>, in the order in which the source takes them. A function that draws
  returns the draws it has not used. When the list runs out inside the retry loop of
  \<open>boxMuller\<close> the model answers \<open>NoMoreDraws\<close>: the source would still be drawing.
\<close>

record SimulationParameters = Contract +
  S0 :: real
  sigma :: real
  paths :: nat
  steps :: nat
  style :: string
  mu :: real

record ConfidenceInterval =
  lower :: number
  upper :: number

record SimulationResult = "number Priced" +
  confidenceInterval :: ConfidenceInterval
  standardError :: number

record RiskMetrics =
  valueAtRisk :: number
  conditionalVaR :: number
  worstReturn :: number
  bestReturn :: number

definition EPSILON :: real where
  \<comment> \<open>\<open>Number.EPSILON\<close>\<close>
  "EPSILON = 1 / 2 ^ 52"

definition js_sqrt :: "real \<Rightarrow> number" where
  \<comment> \<open>\<open>Math.sqrt\<close>: \<open>NaN\<close> below zero\<close>
  "js_sqrt x = (if x < 0 then None else Some (sqrt x))"

definition lift2 :: "(real \<Rightarrow> real \<Rightarrow> real) \<Rightarrow> number \<Rightarrow> number \<Rightarrow> number" where
  \<comment> \<open>a binary operation that is finite on finite operands, \<open>NaN\<close> on a \<open>NaN\<close> operand\<close>
  "lift2 f a b = (case (a, b) of (Some x, Some y) \<Rightarrow> Some (f x y) | _ \<Rightarrow> None)"

definition divide_by :: "number \<Rightarrow> real \<Rightarrow> number" where
  \<comment> \<open>\<open>a / b\<close> for a finite \<open>b\<close>: not finite when \<open>b\<close> is zero\<close>
  "divide_by a b = (case a of Some x \<Rightarrow> (if b = 0 then None else Some (x / b)) | None \<Rightarrow> None)"

fun boxMuller :: "real list \<Rightarrow> failure + (real \<times> real list)" where
  "boxMuller (u1 # u2 # us) =
     (if u1 \<le> EPSILON then boxMuller us
      else Inr (sqrt (- 2.0 * ln u1) * cos (2.0 * pi * u2), us))"
| "boxMuller _ = Inl NoMoreDraws"

text \<open>
  The prices of a path. A \<open>double\<close> is a finite number, \<open>Infinity\<close>, \<open>-Infinity\<close>
  or \<open>NaN\<close>, and the operations that \<open>generatePath\<close> and the payoff apply to prices
  are the ones of IEEE 754 as far as the range goes. On finite operands the result is
  the real result when that lies in the range of the doubles. A result of magnitude
  \<open>2^1024 - 2^970\<close> or more (half a unit in the last place above the greatest double)
  rounds to an infinity. A product, quotient or exponential of magnitude at most
  \<open>2^-1075\<close> (half of \<open>Number.MIN_VALUE\<close>) rounds to 0; a sum or difference of two
  doubles is never rounded to 0. Not modelled: the rounding of a result inside the
  range, and the sign of a zero (no operation here divides by a computed zero).
\<close>

datatype double = Fin real | Infinity | NegInfinity | NaN

definition OVERFLOW :: real where
  "OVERFLOW = 2 ^ 1024 - 2 ^ 970"

definition UNDERFLOW :: real where
  "UNDERFLOW = 1 / 2 ^ 1075"

definition ranged :: "real \<Rightarrow> double" where
  \<comment> \<open>the double for an exact sum or difference\<close>
  "ranged x = (if OVERFLOW \<le> x then Infinity else if x \<le> - OVERFLOW then NegInfinity else Fin x)"

definition rounded :: "real \<Rightarrow> double" where
  \<comment> \<open>the double for an exact product, quotient or exponential\<close>
  "rounded x = (if \<bar>x\<bar> \<le> UNDERFLOW then Fin 0 else ranged x)"

definition signedInfinity :: "real \<Rightarrow> double" where
  \<comment> \<open>the infinity of the sign of \<open>s\<close>; \<open>NaN\<close> when \<open>s\<close> is zero\<close>
  "signedInfinity s = (if 0 < s then Infinity else if s < 0 then NegInfinity else NaN)"

fun signum :: "double \<Rightarrow> real" where
  "signum (Fin x) = sgn x"
| "signum Infinity = 1"
| "signum NegInfinity = - 1"
| "signum NaN = 0"

fun uminus_d :: "double \<Rightarrow> double" where
  "uminus_d (Fin x) = Fin (- x)"
| "uminus_d Infinity = NegInfinity"
| "uminus_d NegInfinity = Infinity"
| "uminus_d NaN = NaN"

fun plus_d :: "double \<Rightarrow> double \<Rightarrow> double" where
  "plus_d (Fin x) (Fin y) = ranged (x + y)"
| "plus_d NaN b = NaN"
| "plus_d a NaN = NaN"
| "plus_d Infinity NegInfinity = NaN"
| "plus_d NegInfinity Infinity = NaN"
| "plus_d Infinity b = Infinity"
| "plus_d a Infinity = Infinity"
| "plus_d NegInfinity b = NegInfinity"
| "plus_d a NegInfinity = NegInfinity"

definition minus_d :: "double \<Rightarrow> double \<Rightarrow> double" where
  "minus_d a b = plus_d a (uminus_d b)"

fun times_d :: "double \<Rightarrow> double \<Rightarrow> double" where
  "times_d (Fin x) (Fin y) = rounded (x * y)"
| "times_d NaN b = NaN"
| "times_d a NaN = NaN"
| "times_d a b = signedInfinity (signum a * signum b)"

definition divide_d :: "real \<Rightarrow> real \<Rightarrow> double" where
  \<comment> \<open>\<open>x / y\<close> for finite operands; the divisor of \<open>generatePath\<close> is a count, its zero is \<open>+0\<close>\<close>
  "divide_d x y = (if y = 0 then signedInfinity x else rounded (x / y))"

fun Math_sqrt :: "double \<Rightarrow> double" where
  "Math_sqrt (Fin x) = (if x < 0 then NaN else Fin (sqrt x))"
| "Math_sqrt Infinity = Infinity"
| "Math_sqrt NegInfinity = NaN"
| "Math_sqrt NaN = NaN"

fun Math_exp :: "double \<Rightarrow> double" where
  "Math_exp (Fin x) = rounded (exp x)"
| "Math_exp Infinity = Infinity"
| "Math_exp NegInfinity = Fin 0"
| "Math_exp NaN = NaN"

fun Math_max :: "double \<Rightarrow> double \<Rightarrow> double" where
  "Math_max (Fin x) (Fin y) = Fin (max x y)"
| "Math_max NaN b = NaN"
| "Math_max a NaN = NaN"
| "Math_max Infinity b = Infinity"
| "Math_max a Infinity = Infinity"
| "Math_max NegInfinity b = b"
| "Math_max a NegInfinity = a"

fun asNumber :: "double \<Rightarrow> number" where
  \<comment> \<open>a price handed to the arithmetic on \<open>number\<close>\<close>
  "asNumber (Fin x) = Some x"
| "asNumber _ = None"

text \<open>
  The loop of \<open>generatePath\<close>, with the number of iterations still to run. Before
  the iteration with index \<open>i\<close> the array \<open>path\<close> has \<open>i\<close> elements, so that
  \<open>path[i - 1]\<close> is its last element. The parameters are finite numbers.
\<close>

fun pathLoop ::
  "SimulationParameters \<Rightarrow> nat \<Rightarrow> double list \<Rightarrow> real list \<Rightarrow> failure + (double list \<times> real list)"
where
  "pathLoop params 0 path us = Inr (path, us)"
| "pathLoop params (Suc n) path us =
     (case boxMuller us of
        Inl e \<Rightarrow> Inl e
      | Inr (randomNormal, us') \<Rightarrow>
          let dt = divide_d (T params) (real (steps params));
              previousPrice = last path;
              drift = times_d (minus_d (Fin (mu params))
                                 (times_d (times_d (Fin 0.5) (Fin (sigma params))) (Fin (sigma params))))
                        dt;
              diffusion = times_d (times_d (Fin (sigma params)) (Math_sqrt dt)) (Fin randomNormal);
              newPrice = times_d previousPrice (Math_exp (plus_d drift diffusion))
          in pathLoop params n (path @ [newPrice]) us')"

definition generatePath ::
  "SimulationParameters \<Rightarrow> real list \<Rightarrow> failure + (double list \<times> real list)"
where
  "generatePath params us = pathLoop params (steps params) [Fin (S0 params)] us"

fun pathsLoop ::
  "SimulationParameters \<Rightarrow> nat \<Rightarrow> double list list \<Rightarrow> real list
     \<Rightarrow> failure + (double list list \<times> real list)"
where
  "pathsLoop params 0 allPaths us = Inr (allPaths, us)"
| "pathsLoop params (Suc n) allPaths us =
     (case generatePath params us of
        Inl e \<Rightarrow> Inl e
      | Inr (path, us') \<Rightarrow> pathsLoop params n (allPaths @ [path]) us')"

definition generatePaths ::
  "SimulationParameters \<Rightarrow> real list \<Rightarrow> failure + (double list list \<times> real list)"
where
  "generatePaths params us = pathsLoop params (paths params) [] us"

definition payoffOf :: "SimulationParameters \<Rightarrow> double list \<Rightarrow> number" where
  \<comment> \<open>the callback of \<open>simulationPaths.map\<close> in \<open>priceOption\<close>; \<open>path[-1]\<close> is \<open>undefined\<close>\<close>
  "payoffOf params path =
     (let finalPrice = (if path = [] then NaN else last path)
      in if isCall (type params)
         then asNumber (Math_max (Fin 0) (minus_d finalPrice (Fin (K params))))
         else asNumber (Math_max (Fin 0) (minus_d (Fin (K params)) finalPrice)))"

text \<open>
  \<open>priceOption\<close>. The payoffs are finite numbers or not (a call on a path that
  ended at \<open>Infinity\<close> pays \<open>Infinity\<close>, a put on it pays 0); the mean, the variance
  and the discounting are arithmetic on \<open>number\<close>.
\<close>

definition priceOption ::
  "SimulationParameters \<Rightarrow> real list \<Rightarrow> failure + (SimulationResult \<times> real list)"
where
  "priceOption params us =
     (case generatePaths (params\<lparr>mu := r params\<rparr>) us of
        Inl e \<Rightarrow> Inl e
      | Inr (simulationPaths, us') \<Rightarrow>
          let payoffs = map (payoffOf params) simulationPaths;
              meanPayoff =
                divide_by (foldl (\<lambda>sum payoff. lift2 (+) sum payoff) (Some 0) payoffs)
                  (real (paths params));
              discount = exp (- r params * T params);
              price' = map_option (\<lambda>m. m * discount) meanPayoff;
              variance' =
                divide_by
                  (foldl (\<lambda>sum payoff.
                            lift2 (+) sum (map_option (\<lambda>d. d ^ 2) (lift2 (-) payoff meanPayoff)))
                     (Some 0) payoffs)
                  (real (paths params) - 1);
              standardError' = Option.bind (divide_by variance' (real (paths params))) js_sqrt
          in Inr (\<lparr> price = price',
                     confidenceInterval =
                       \<lparr> lower = lift2 (\<lambda>pr se. pr - 1.96 * se * discount) price' standardError',
                         upper = lift2 (\<lambda>pr se. pr + 1.96 * se * discount) price' standardError' \<rparr>,
                     standardError = map_option (\<lambda>se. se * discount) standardError' \<rparr>, us'))"

text \<open>
  \<open>calculateRiskMetrics\<close>. A path that is empty or starts at 0 has a return that is
  not a finite number; the order in which \<open>sort\<close> leaves an array holding such values
  is not modelled, and the answer is \<open>NotFinite\<close>. Array reads and \<open>slice\<close> follow
  the source for every index: a read outside the array is \<open>undefined\<close>, and a negative
  end of \<open>slice\<close> counts from the end of the array.
\<close>

definition pathReturn :: "real list \<Rightarrow> number" where
  "pathReturn path =
     (if path = [] \<or> path ! 0 = 0 then None
      else Some ((last path - path ! 0) / path ! 0))"

definition js_index :: "real list \<Rightarrow> int \<Rightarrow> number" where
  "js_index xs i = (if 0 \<le> i \<and> i < int (length xs) then Some (xs ! nat i) else None)"

definition slice0 :: "real list \<Rightarrow> int \<Rightarrow> real list" where
  \<comment> \<open>\<open>xs.slice(0, k)\<close>\<close>
  "slice0 xs k = (if k < 0 then take (nat (int (length xs) + k)) xs else take (nat k) xs)"

definition calculateRiskMetrics :: "real list list \<Rightarrow> real \<Rightarrow> real \<Rightarrow> failure + RiskMetrics" where
  "calculateRiskMetrics paths' confidence initialValue =
     (case those (map pathReturn paths') of
        None \<Rightarrow> Inl NotFinite
      | Some unsorted \<Rightarrow>
          let returns = sort unsorted;
              varIndex = \<lfloor>real (length returns) * (1 - confidence)\<rfloor>;
              var95 = map_option (\<lambda>x. - x * initialValue) (js_index returns varIndex);
              cvar = map_option (\<lambda>q. q * initialValue)
                       (divide_by (Some (- reduce_sum (slice0 returns varIndex)))
                          (real_of_int varIndex))
          in Inr \<lparr> valueAtRisk = var95,
                    conditionalVaR = cvar,
                    worstReturn = js_index returns 0,
                    bestReturn = js_index returns (int (length returns) - 1) \<rparr>)"

section \<open>Portfolio optimizer (lib/portfolio-optimizer.js)\<close>

text \<open>
  Reading \<open>covariance[i][j]\<close> throws a \<open>TypeError\<close> when the matrix has no row
  \<open>i\<close>, and is \<open>undefined\<close> (\<open>NaN\<close> in the product) when row \<open>i\<close> has no
  entry \<open>j\<close>. A weight array that holds a non-finite entry stays so to the end of the
  optimisation and never meets the stopping test; the model answers \<open>NotFinite\<close>
  as soon as one arises.
\<close>

record Constraints =
  sumToOne :: bool
  nonNegative :: bool

record RiskReturn =
  return :: number
  risk :: number

record PortfolioMetrics = RiskReturn +
  variance :: number

definition learningRate :: real where
  "learningRate = 0.01"

definition iterations :: nat where
  "iterations = 1000"

definition dot :: "real list \<Rightarrow> real list \<Rightarrow> real" where
  \<comment> \<open>\<open>xs.reduce((sum, x, i) => sum + x * ys[i], 0)\<close> for \<open>ys\<close> at least as long as \<open>xs\<close>\<close>
  "dot xs ys = reduce_sum (map2 (\<lambda>x y. x * y) xs ys)"

definition calculatePortfolioMetrics ::
  "real list \<Rightarrow> real list \<Rightarrow> real list list \<Rightarrow> failure + PortfolioMetrics"
where
  "calculatePortfolioMetrics weights returns covariance =
     (let n = length weights in
      if length covariance < n then Inl TypeError
      else
        let portfolioReturn =
              (if length returns < n then None else Some (dot weights returns));
            portfolioVariance =
              (if \<exists>row\<in>set (take n covariance). length row < n then None
               else Some (reduce_sum (concat
                      (map2 (\<lambda>wi row. map2 (\<lambda>wj c. wi * wj * c) weights row)
                         weights covariance))));
            portfolioStdDev = Option.bind portfolioVariance js_sqrt
        in Inr \<lparr> return = portfolioReturn, risk = portfolioStdDev,
                  variance = portfolioVariance \<rparr>)"

definition calculateSharpeRatio :: "number \<Rightarrow> number \<Rightarrow> real \<Rightarrow> number" where
  "calculateSharpeRatio portfolioReturn portfolioRisk riskFreeRate =
     (case portfolioRisk of
        None \<Rightarrow> None
      | Some rk \<Rightarrow> divide_by (map_option (\<lambda>x. x - riskFreeRate) portfolioReturn) rk)"

definition calculateGradients ::
  "real list \<Rightarrow> real list \<Rightarrow> real list list \<Rightarrow> failure + real list"
where
  "calculateGradients weights returns covariance =
     (let n = length weights in
      if length covariance < n then Inl TypeError
      else if \<exists>row\<in>set (take n covariance). length row < n then Inl NotFinite
      else Inr (map (\<lambda>row. dot weights row) (take n covariance)))"

definition optimizeStep ::
  "real list \<Rightarrow> real list list \<Rightarrow> Constraints \<Rightarrow> real list \<Rightarrow> failure + real list"
where
  \<comment> \<open>the body of the loop of \<open>optimizePortfolio\<close>, up to the stopping test\<close>
  "optimizeStep returns covariance constraints weights =
     (case calculateGradients weights returns covariance of
        Inl e \<Rightarrow> Inl e
      | Inr gradients \<Rightarrow>
          let updated = map2 (\<lambda>w g. w - learningRate * g) weights gradients;
              clamped = (if nonNegative constraints then map (\<lambda>w. max 0 w) updated
                         else updated)
          in if sumToOne constraints
             then (let sum = reduce_sum clamped
                   in if sum = 0 \<and> clamped \<noteq> [] then Inl NotFinite
                      else Inr (map (\<lambda>w. w / sum) clamped))
             else Inr clamped)"

fun optimizeLoop ::
  "nat \<Rightarrow> real list \<Rightarrow> real list list \<Rightarrow> number \<Rightarrow> Constraints \<Rightarrow> real list
     \<Rightarrow> failure + real list"
where
  "optimizeLoop 0 returns covariance targetReturn constraints weights = Inr weights"
| "optimizeLoop (Suc n) returns covariance targetReturn constraints weights =
     (case optimizeStep returns covariance constraints weights of
        Inl e \<Rightarrow> Inl e
      | Inr weights' \<Rightarrow>
          let currentReturn = dot weights' returns
          in if (case targetReturn of
                   None \<Rightarrow> False
                 | Some target \<Rightarrow> \<bar>currentReturn - target\<bar> < 0.0001)
             then Inr weights'
             else optimizeLoop n returns covariance targetReturn constraints weights')"

definition optimizePortfolio ::
  "real list \<Rightarrow> real list list \<Rightarrow> number \<Rightarrow> Constraints \<Rightarrow> failure + real list"
where
  "optimizePortfolio returns covariance targetReturn constraints =
     (let n = length returns
      in optimizeLoop iterations returns covariance targetReturn constraints
           (replicate n (1 / real n)))"

record FrontierPoint = RiskReturn +
  weights :: "real list option"
  sharpe :: number

definition js_min :: "real list \<Rightarrow> number" where
  \<comment> \<open>\<open>Math.min(...xs)\<close>: \<open>Infinity\<close> for no argument\<close>
  "js_min xs = (case xs of [] \<Rightarrow> None | x # ys \<Rightarrow> Some (foldl min x ys))"

definition js_max :: "real list \<Rightarrow> number" where
  "js_max xs = (case xs of [] \<Rightarrow> None | x # ys \<Rightarrow> Some (foldl max x ys))"

definition frontierPoint ::
  "real list \<Rightarrow> real list list \<Rightarrow> real \<Rightarrow> number \<Rightarrow> failure + FrontierPoint"
where
  \<comment> \<open>the body of the loop of \<open>generateEfficientFrontier\<close> for one target return\<close>
  "frontierPoint returns covariance riskFreeRate targetReturn =
     (case optimizePortfolio returns covariance targetReturn
             \<lparr> sumToOne = True, nonNegative = True \<rparr> of
        Inl TypeError \<Rightarrow> Inl TypeError
      | Inl _ \<Rightarrow> Inr \<lparr> return = None, risk = None, weights = None, sharpe = None \<rparr>
      | Inr weights' \<Rightarrow>
          (case calculatePortfolioMetrics weights' returns covariance of
             Inl e \<Rightarrow> Inl e
           | Inr metrics \<Rightarrow>
               Inr \<lparr> return = return metrics, risk = risk metrics,
                     weights = Some weights',
                     sharpe = calculateSharpeRatio (return metrics) (risk metrics) riskFreeRate \<rparr>))"

fun collect :: "(failure + 'a) list \<Rightarrow> failure + 'a list" where
  \<comment> \<open>\<open>frontier.push\<close> in a loop that the first exception leaves\<close>
  "collect [] = Inr []"
| "collect (Inl e # rs) = Inl e"
| "collect (Inr x # rs) = (case collect rs of Inl e \<Rightarrow> Inl e | Inr xs \<Rightarrow> Inr (x # xs))"

definition generateEfficientFrontier ::
  "real list \<Rightarrow> real list list \<Rightarrow> real \<Rightarrow> nat \<Rightarrow> failure + FrontierPoint list"
where
  "generateEfficientFrontier returns covariance riskFreeRate points =
     (let minReturn = js_min returns;
          maxReturn = js_max returns;
          returnStep = divide_by (lift2 (-) maxReturn minReturn) (real points - 1)
      in collect (map (\<lambda>i. frontierPoint returns covariance riskFreeRate
                                (lift2 (\<lambda>lo st. lo + real i * st) minReturn returnStep))
                    [0..<points]))"

section \<open>Notions used in the statements\<close>

text \<open>
  The polynomial of the error-function approximation in \<open>erfApprox\<close>, in Horner
  form as the source writes it, and its value at the argument \<open>t\<close> that \<open>normalCDF\<close>
  computes from \<open>x\<close>.
\<close>

definition erfPoly :: "real \<Rightarrow> real" where
  "erfPoly t = (((((1.061405429 * t + - 1.453152027) * t) + 1.421413741) * t + - 0.284496736) * t + 0.254829592) * t"













text \<open>
  The target returns of the efficient frontier as the specification describes them:
  \<open>points\<close> equally spaced values from the least to the greatest expected return.
\<close>

definition frontierTarget :: "real list \<Rightarrow> nat \<Rightarrow> nat \<Rightarrow> real" where
  "frontierTarget returns points i =
     Min (set returns) + real i * (Max (set returns) - Min (set returns)) / (real points - 1)"

section \<open>Black-Scholes pricing: the approximate normal distribution\<close>



lemma erfApprox_poly: "erfApprox x = 1 - erfPoly (1 / (1 + 0.3275911 * x)) * exp (- x * x)"
  by (simp add: erfApprox_def erfPoly_def Let_def)

lemma erfPoly_nonneg:
  assumes "0 \<le> t" "t \<le> 1"
  shows "0 \<le> erfPoly t"
proof -
  have f1: "0 \<le> (t * (200 * t - 137))^2" by simp
  have f2: "0 \<le> (20 * t - 3)^2" by simp
  have f3: "0 \<le> t^3" using assms by simp
  have f4: "0 \<le> t^2" by simp
  have e1: "(t * (200 * t - 137))^2 = 40000 * t^4 - 54800 * t^3 + 18769 * t^2"
    by (simp add: power2_eq_square power3_eq_cube power4_eq_xxxx algebra_simps)
  have e2: "(20 * t - 3)^2 = 400 * t^2 - 120 * t + 9"
    by (simp add: power2_eq_square algebra_simps)
  have q: "0 \<le> 1061405429 * t^4 - 1453152027 * t^3 + 1421413741 * t^2 - 284496736 * t + 254829592"
    using f1 f2 f3 f4 assms unfolding e1 e2 by linarith
  have "1000000000 * erfPoly t = t * (1061405429 * t^4 - 1453152027 * t^3 + 1421413741 * t^2 - 284496736 * t + 254829592)"
    by (simp add: erfPoly_def power2_eq_square power3_eq_cube power4_eq_xxxx algebra_simps)
  moreover have "0 \<le> t * (1061405429 * t^4 - 1453152027 * t^3 + 1421413741 * t^2 - 284496736 * t + 254829592)"
    using q assms by simp
  ultimately show ?thesis by linarith
qed

lemma erfPoly_le_one:
  assumes "0 \<le> t" "t \<le> 1"
  shows "erfPoly t \<le> 1"
proof -
  define g where "g = 999999999 + 745170407 * t + 1029667143 * t^2 - 391746598 * t^3 + 1061405429 * t^4"
  have f2: "0 \<le> t^2" by simp
  have f3: "t^3 \<le> t^2" using assms by (simp add: power_decreasing)
  have f4: "0 \<le> t^4" using assms by simp
  have g: "0 \<le> g"
    unfolding g_def using f2 f3 f4 assms by linarith
  have "1000000000 * (1 - erfPoly t) = 1 + (1 - t) * g"
    by (simp add: g_def erfPoly_def power2_eq_square power3_eq_cube power4_eq_xxxx algebra_simps)
  moreover have "0 \<le> (1 - t) * g"
    using g assms by simp
  ultimately have "0 \<le> 1000000000 * (1 - erfPoly t)" by simp
  then show ?thesis by simp
qed

lemma erfApprox_bounds:
  assumes "0 \<le> x"
  shows "0 \<le> erfApprox x" and "erfApprox x \<le> 1"
proof -
  define t where "t = 1 / (1 + 0.3275911 * x)"
  have t: "0 \<le> t" "t \<le> 1" using assms by (simp_all add: t_def)
  have e: "0 < exp (- x * x)" "exp (- x * x) \<le> 1" using assms by simp_all
  have "erfPoly t * exp (- x * x) \<le> 1 * 1"
    using erfPoly_le_one[OF t] erfPoly_nonneg[OF t] e by (intro mult_mono) simp_all
  then show "0 \<le> erfApprox x" by (simp add: erfApprox_poly t_def)
  have "0 \<le> erfPoly t * exp (- x * x)"
    using erfPoly_nonneg[OF t] e by simp
  then show "erfApprox x \<le> 1" by (simp add: erfApprox_poly t_def)
qed

lemma normalCDF_cases:
  "normalCDF x = (if x < 0 then (1 - erfApprox (\<bar>x\<bar> / sqrt 2)) / 2
                  else (1 + erfApprox (\<bar>x\<bar> / sqrt 2)) / 2)"
  by (simp add: normalCDF_def Let_def)

lemma normalCDF_bounds: "0 \<le> normalCDF x" "normalCDF x \<le> 1"
proof -
  define e where "e = erfApprox (\<bar>x\<bar> / sqrt 2)"
  have "0 \<le> \<bar>x\<bar> / sqrt 2" by simp
  from erfApprox_bounds[OF this] have e: "0 \<le> e" "e \<le> 1" by (simp_all add: e_def)
  have "normalCDF x = (if x < 0 then (1 - e) / 2 else (1 + e) / 2)"
    unfolding e_def by (rule normalCDF_cases)
  with e show "0 \<le> normalCDF x" "normalCDF x \<le> 1" by (simp_all split: if_splits)
qed













section \<open>Black-Scholes pricing: degenerate cases and Greeks\<close>






section \<open>Black-Scholes pricing: put-call parity\<close>









section \<open>Monte Carlo engine: the option style\<close>

lemma pathLoop_style: "pathLoop (p\<lparr>style := s\<rparr>) n path us = pathLoop p n path us"
  by (induction n arbitrary: path us) (simp_all split: sum.splits prod.splits)

lemma generatePath_style: "generatePath (p\<lparr>style := s\<rparr>) us = generatePath p us"
  by (simp add: generatePath_def pathLoop_style)

lemma pathsLoop_style: "pathsLoop (p\<lparr>style := s\<rparr>) n acc us = pathsLoop p n acc us"
  by (induction n arbitrary: acc us) (simp_all add: generatePath_style split: sum.splits prod.splits)

lemma generatePaths_style: "generatePaths (p\<lparr>style := s\<rparr>) us = generatePaths p us"
  by (simp add: generatePaths_def pathsLoop_style)

lemma payoffOf_style: "payoffOf (p\<lparr>style := s\<rparr>) path = payoffOf p path"
  by (simp add: payoffOf_def)

lemma priceOption_style: "priceOption (p\<lparr>style := s\<rparr>) us = priceOption p us"
proof -
  have "(p\<lparr>style := s\<rparr>)\<lparr>mu := r (p\<lparr>style := s\<rparr>)\<rparr> = (p\<lparr>mu := r p\<rparr>)\<lparr>style := s\<rparr>" by simp
  then have g: "generatePaths ((p\<lparr>style := s\<rparr>)\<lparr>mu := r (p\<lparr>style := s\<rparr>)\<rparr>) us = generatePaths (p\<lparr>mu := r p\<rparr>) us"
    by (simp only: generatePaths_style)
  have po: "payoffOf (p\<lparr>style := s\<rparr>) = payoffOf p" by (rule ext) (rule payoffOf_style)
  show ?thesis unfolding priceOption_def g po by (simp split: sum.splits prod.splits)
qed

text \<open>
  Claim C10. \<open>priceOption\<close> does not depend on \<open>params.style\<close>: two parameter
  objects that agree on every field but \<open>style\<close> (they are equal once \<open>style\<close> is
  overwritten) give the same result on the same draws, so that an American option is
  priced as a European one.
\<close>

theorem style_noninterference:
  assumes "p1\<lparr>style := s\<rparr> = p2\<lparr>style := s\<rparr>"
  shows "priceOption p1 us = priceOption p2 us"
proof -
  have "priceOption p1 us = priceOption (p1\<lparr>style := s\<rparr>) us"
    by (simp only: priceOption_style)
  also have "\<dots> = priceOption (p2\<lparr>style := s\<rparr>) us"
    by (simp only: assms)
  also have "\<dots> = priceOption p2 us"
    by (simp only: priceOption_style)
  finally show ?thesis .
qed

text \<open>An American and a European call on the same four draws.\<close>

theorem style_noninterference_witness:
  "priceOption \<lparr> K = 100, r = 0, T = 1, type = ''call'', S0 = 110, sigma = 0, paths = 2,
                 steps = 1, style = ''american'', mu = 0 \<rparr> [1 / 2, 1 / 2, 1 / 2, 1 / 2] =
   priceOption \<lparr> K = 100, r = 0, T = 1, type = ''call'', S0 = 110, sigma = 0, paths = 2,
                 steps = 1, style = ''european'', mu = 0 \<rparr> [1 / 2, 1 / 2, 1 / 2, 1 / 2]"
  by (rule style_noninterference [where s = "''''"]) simp

section \<open>Monte Carlo engine: price paths\<close>






























section \<open>Monte Carlo engine: the price estimate\<close>

lemma foldl_plus_sum_list: "foldl (\<lambda>sum x. sum + x) a xs = a + sum_list xs" for a :: real
  by (induction xs arbitrary: a) simp_all

lemma reduce_sum_sum_list: "reduce_sum xs = sum_list xs"
  by (simp add: reduce_sum_def foldl_plus_sum_list)

















section \<open>Monte Carlo engine: risk metrics\<close>

text \<open>
  Claim C1 asks for a finite sentinel as \<open>conditionalVaR\<close> when the VaR index is 0.
  The source divides the sum of the empty slice by the index without a guard. For two
  paths at confidence 0.95 the index is \<open>floor (2 * 0.05) = 0\<close>: \<open>valueAtRisk\<close> is
  100 and \<open>conditionalVaR\<close> is not a finite number (\<open>- 0 / 0 * 1000\<close>, \<open>NaN\<close>).
\<close>

theorem cvar_zero_index_not_finite:
  "calculateRiskMetrics [[100, 110], [100, 90]] (95 / 100) 1000 =
     Inr \<lparr> valueAtRisk = Some 100, conditionalVaR = None,
           worstReturn = Some (- (1 / 10)), bestReturn = Some (1 / 10) \<rparr>"
  by (simp add: calculateRiskMetrics_def pathReturn_def js_index_def slice0_def divide_by_def
      reduce_sum_def Let_def)

text \<open>
  The same holds at every input with a VaR index of 0: whenever the risk metrics are
  returned, \<open>conditionalVaR\<close> is not a finite number.
\<close>

lemma cvar_zero_index:
  assumes "calculateRiskMetrics paths' confidence initialValue = Inr m"
    and "\<lfloor>real (length paths') * (1 - confidence)\<rfloor> = 0"
  shows "conditionalVaR m = None"
proof -
  from assms(1) obtain unsorted where u: "those (map pathReturn paths') = Some unsorted"
    by (auto simp: calculateRiskMetrics_def split: option.splits)
  have "length unsorted = length paths'"
    using u
  proof (induction paths' arbitrary: unsorted)
    case Nil
    then show ?case by simp
  next
    case (Cons a paths')
    then show ?case by (auto split: option.splits)
  qed
  then have "\<lfloor>real (length (sort unsorted)) * (1 - confidence)\<rfloor> = 0"
    using assms(2) by simp
  with assms(1) show ?thesis
    by (auto simp: calculateRiskMetrics_def u Let_def divide_by_def)
qed

section \<open>Portfolio optimizer: feasibility of the weights\<close>

lemma optimizeLoop_step_fails:
  "optimizeStep rs cov c w = Inl e \<Longrightarrow> 0 < n \<Longrightarrow> optimizeLoop n rs cov t c w = Inl e"
  by (cases n) simp_all

text \<open>
  Claim C2 asks for weights that are non-negative and sum to 1 for every returns vector
  and covariance matrix of matching dimension. The source clamps and then divides by
  the sum of the weights, without a guard for a sum of 0. With returns and covariances
  in percent (variances 400 and 900) the first gradient step takes both weights below
  0, both are clamped to 0, and the division \<open>0 / 0\<close> leaves no finite weight: the
  result is an array of \<open>NaN\<close>.
\<close>

theorem optimizer_all_weights_clamped:
  "optimizePortfolio [10, 15] [[400, 100], [100, 900]] (Some 12)
     \<lparr> sumToOne = True, nonNegative = True \<rparr> = Inl NotFinite"
proof -
  have "optimizeStep [10, 15] [[400, 100], [100, 900]]
          \<lparr> sumToOne = True, nonNegative = True \<rparr> [1 / 2, 1 / 2] = Inl NotFinite"
    by (simp add: optimizeStep_def calculateGradients_def dot_def reduce_sum_def
        learningRate_def Let_def)
  then have "optimizeLoop iterations [10, 15] [[400, 100], [100, 900]] (Some 12)
          \<lparr> sumToOne = True, nonNegative = True \<rparr> [1 / 2, 1 / 2] = Inl NotFinite"
    by (rule optimizeLoop_step_fails) (simp add: iterations_def)
  moreover have "replicate (length [10, 15 :: real]) (1 / real (length [10, 15 :: real])) = [1 / 2, 1 / 2]"
    by (simp add: numeral_2_eq_2)
  ultimately show ?thesis by (simp only: optimizePortfolio_def Let_def)
qed

lemma length_optimizeStep:
  "optimizeStep rs cov c w = Inr w' \<Longrightarrow> length w' = length w"
  by (auto simp: optimizeStep_def calculateGradients_def Let_def split: sum.splits if_splits)

lemma sum_list_divide: "sum_list (map (\<lambda>w. w / s) xs) = sum_list xs / s" for s :: real
  by (induction xs) (simp_all add: add_divide_distrib)

lemma optimizeStep_feasible:
  assumes "optimizeStep rs cov \<lparr> sumToOne = True, nonNegative = True \<rparr> w = Inr w'" "w \<noteq> []"
  shows "(\<forall>x\<in>set w'. 0 \<le> x) \<and> sum_list w' = 1"
proof -
  from assms(1) obtain g where g: "calculateGradients w rs cov = Inr g"
    by (auto simp: optimizeStep_def split: sum.splits)
  define cl where "cl = map (\<lambda>w. max 0 w) (map2 (\<lambda>w g. w - learningRate * g) w g)"
  have lg: "length g = length w"
    using g by (auto simp: calculateGradients_def Let_def split: if_splits)
  have ne: "cl \<noteq> []" using assms(2) lg by (cases w; cases g) (simp_all add: cl_def)
  have nn: "\<forall>x\<in>set cl. 0 \<le> x" by (auto simp: cl_def)
  from assms(1) have s0: "reduce_sum cl \<noteq> 0" and w': "w' = map (\<lambda>w. w / reduce_sum cl) cl"
    using ne by (auto simp: optimizeStep_def g Let_def cl_def split: if_splits)
  have "0 \<le> sum_list cl" using nn by (simp add: sum_list_nonneg)
  then have pos: "0 < sum_list cl" using s0 by (simp add: reduce_sum_sum_list)
  have "\<forall>x\<in>set w'. 0 \<le> x" using nn pos by (auto simp: w' reduce_sum_sum_list)
  moreover have "sum_list w' = 1" using pos by (simp add: w' sum_list_divide reduce_sum_sum_list)
  ultimately show ?thesis by simp
qed

lemma optimizeLoop_feasible:
  assumes "optimizeLoop n rs cov t \<lparr> sumToOne = True, nonNegative = True \<rparr> w = Inr w'"
    and "w \<noteq> []" "(\<forall>x\<in>set w. 0 \<le> x) \<and> sum_list w = 1"
  shows "length w' = length w \<and> (\<forall>x\<in>set w'. 0 \<le> x) \<and> sum_list w' = 1"
  using assms
proof (induction n arbitrary: w)
  case 0
  then show ?case by simp
next
  case (Suc n)
  from Suc.prems(1) obtain w1 where
    st: "optimizeStep rs cov \<lparr> sumToOne = True, nonNegative = True \<rparr> w = Inr w1"
    by (auto split: sum.splits)
  have l1: "length w1 = length w" using st by (rule length_optimizeStep)
  then have ne1: "w1 \<noteq> []" using Suc.prems(2) by auto
  have f1: "(\<forall>x\<in>set w1. 0 \<le> x) \<and> sum_list w1 = 1"
    using st Suc.prems(2) by (rule optimizeStep_feasible)
  from Suc.prems(1) have "w' = w1 \<or>
      optimizeLoop n rs cov t \<lparr> sumToOne = True, nonNegative = True \<rparr> w1 = Inr w'"
    by (auto simp: st Let_def split: if_splits)
  then show ?case
  proof
    assume "w' = w1"
    then show ?thesis using l1 f1 by simp
  next
    assume "optimizeLoop n rs cov t \<lparr> sumToOne = True, nonNegative = True \<rparr> w1 = Inr w'"
    from Suc.IH[OF this ne1 f1] l1 show ?thesis by simp
  qed
qed

lemma optimizePortfolio_feasible:
  assumes "optimizePortfolio rs cov t \<lparr> sumToOne = True, nonNegative = True \<rparr> = Inr w"
    and "rs \<noteq> []"
  shows "length w = length rs \<and> (\<forall>x\<in>set w. 0 \<le> x) \<and> \<bar>sum_list w - 1\<bar> \<le> 1 / 10 ^ 6"
proof -
  define n where "n = length rs"
  have n: "0 < n" using assms(2) by (simp add: n_def)
  have 1: "replicate n (1 / real n) \<noteq> []" using n by simp
  have 2: "(\<forall>x\<in>set (replicate n (1 / real n)). 0 \<le> x) \<and> sum_list (replicate n (1 / real n)) = 1"
    using n by (simp add: sum_list_replicate)
  have "optimizeLoop iterations rs cov t \<lparr> sumToOne = True, nonNegative = True \<rparr>
          (replicate n (1 / real n)) = Inr w"
    using assms(1) by (simp add: optimizePortfolio_def n_def Let_def)
  from optimizeLoop_feasible[OF this 1 2] show ?thesis by (simp add: n_def)
qed

text \<open>
  The division by zero is the only obstacle. When every entry of a square covariance
  matrix of dimension \<open>n\<close> is below \<open>100 / n\<close> (\<open>1 / (learningRate * n)\<close>), some
  weight stays positive in every iteration, and the optimizer returns weights that are
  non-negative and sum to 1.
\<close>

lemma weighted_sum_below:
  fixes w :: "real list"
  assumes "length w \<le> length row" "\<forall>x\<in>set w. 0 \<le> x" "\<forall>c\<in>set (take (length w) row). c < B"
  shows "sum_list (map2 (\<lambda>x y. x * y) w row) \<le> B * sum_list w \<and>
         (0 < sum_list w \<longrightarrow> sum_list (map2 (\<lambda>x y. x * y) w row) < B * sum_list w)"
  using assms
proof (induction w arbitrary: row)
  case Nil
  then show ?case by simp
next
  case (Cons x w)
  then obtain c row' where row: "row = c # row'" by (cases row) auto
  have x: "0 \<le> x" and c: "c < B" using Cons.prems by (simp_all add: row)
  have IH: "sum_list (map2 (\<lambda>x y. x * y) w row') \<le> B * sum_list w \<and>
         (0 < sum_list w \<longrightarrow> sum_list (map2 (\<lambda>x y. x * y) w row') < B * sum_list w)"
    using Cons.prems by (intro Cons.IH) (simp_all add: row)
  have xc: "x * c \<le> x * B" using x c by (simp add: mult_left_mono)
  have w0: "0 \<le> sum_list w" using Cons.prems(2) by (simp add: sum_list_nonneg)
  have le: "sum_list (map2 (\<lambda>x y. x * y) (x # w) row) \<le> B * sum_list (x # w)"
    using IH xc by (simp add: row algebra_simps)
  have "0 < sum_list (x # w) \<longrightarrow> sum_list (map2 (\<lambda>x y. x * y) (x # w) row) < B * sum_list (x # w)"
  proof
    assume "0 < sum_list (x # w)"
    then consider "0 < x" | "0 < sum_list w" using x w0 by fastforce
    then show "sum_list (map2 (\<lambda>x y. x * y) (x # w) row) < B * sum_list (x # w)"
    proof cases
      case 1
      then have "x * c < x * B" using c by simp
      with IH show ?thesis by (simp add: row algebra_simps)
    next
      case 2
      with IH xc show ?thesis by (simp add: row algebra_simps)
    qed
  qed
  with le show ?case by simp
qed

lemma sum_list_below:
  fixes g :: "real list"
  assumes "g \<noteq> []" "\<forall>x\<in>set g. x < B"
  shows "sum_list g < real (length g) * B"
  using assms
proof (induction g)
  case Nil
  then show ?case by simp
next
  case (Cons a g)
  show ?case
  proof (cases "g = []")
    case True
    then show ?thesis using Cons.prems by simp
  next
    case False
    with Cons have "sum_list g < real (length g) * B" by simp
    moreover have "a < B" using Cons.prems by simp
    ultimately show ?thesis by (simp add: algebra_simps)
  qed
qed

lemma sum_list_update:
  fixes w :: "real list"
  shows "length g = length w \<Longrightarrow>
   sum_list (map2 (\<lambda>w g. w - c * g) w g) = sum_list w - c * sum_list g"
  by (induction w g rule: list_induct2') (simp_all add: algebra_simps)

lemma sum_list_clamp: "sum_list xs \<le> sum_list (map (\<lambda>w. max 0 w) xs)" for xs :: "real list"
  by (induction xs) (simp_all add: add_mono)

lemma optimizeStep_succeeds:
  assumes w: "w \<noteq> []" "\<forall>x\<in>set w. 0 \<le> x" "sum_list w = 1"
    and rows: "length w \<le> length cov"
    and cols: "\<forall>row\<in>set (take (length w) cov). length w \<le> length row"
    and small: "\<forall>row\<in>set (take (length w) cov). \<forall>c\<in>set (take (length w) row). c < 100 / real (length w)"
  shows "\<exists>w'. optimizeStep rs cov \<lparr> sumToOne = True, nonNegative = True \<rparr> w = Inr w'"
proof -
  define n where "n = length w"
  define g where "g = map (\<lambda>row. dot w row) (take n cov)"
  have n: "0 < n" using w(1) by (simp add: n_def)
  have cg: "calculateGradients w rs cov = Inr g"
    using rows cols by (auto simp: calculateGradients_def Let_def g_def n_def)
  have lg: "length g = length w" using rows by (simp add: g_def n_def)
  have gne: "g \<noteq> []" using lg w(1) by auto
  have "\<forall>x\<in>set g. x < 100 / real n"
  proof
    fix x assume "x \<in> set g"
    then obtain row where row: "row \<in> set (take n cov)" "x = dot w row" by (auto simp: g_def)
    have "length w \<le> length row" using cols row(1) by (simp add: n_def)
    moreover have "\<forall>c\<in>set (take (length w) row). c < 100 / real n"
      using small row(1) by (simp add: n_def)
    ultimately have "sum_list (map2 (\<lambda>x y. x * y) w row) < (100 / real n) * sum_list w"
      using weighted_sum_below[of w row "100 / real n"] w(2,3) by simp
    then show "x < 100 / real n" by (simp add: row(2) dot_def reduce_sum_sum_list w(3))
  qed
  from sum_list_below[OF gne this] have "sum_list g < real (length g) * (100 / real n)" .
  then have sg: "sum_list g < 100" using n by (simp add: lg n_def)
  define cl where "cl = map (\<lambda>w. max 0 w) (map2 (\<lambda>w g. w - learningRate * g) w g)"
  have "sum_list (map2 (\<lambda>w g. w - learningRate * g) w g) = 1 - learningRate * sum_list g"
    using sum_list_update[OF lg] w(3) by simp
  also have "\<dots> > 0" using sg by (simp add: learningRate_def)
  finally have "0 < sum_list cl"
    unfolding cl_def using sum_list_clamp[of "map2 (\<lambda>w g. w - learningRate * g) w g"] by linarith
  then have "reduce_sum cl \<noteq> 0" by (simp add: reduce_sum_sum_list)
  then show ?thesis
    unfolding optimizeStep_def cg by (simp add: Let_def cl_def)
qed

lemma optimizeLoop_succeeds:
  assumes w: "w \<noteq> []" "\<forall>x\<in>set w. 0 \<le> x" "sum_list w = 1"
    and rows: "length w \<le> length cov"
    and cols: "\<forall>row\<in>set (take (length w) cov). length w \<le> length row"
    and small: "\<forall>row\<in>set (take (length w) cov). \<forall>c\<in>set (take (length w) row). c < 100 / real (length w)"
  shows "\<exists>w'. optimizeLoop n rs cov t \<lparr> sumToOne = True, nonNegative = True \<rparr> w = Inr w'"
  using assms
proof (induction n arbitrary: w)
  case 0
  then show ?case by simp
next
  case (Suc n)
  from optimizeStep_succeeds[OF Suc.prems] obtain w1 where
    st: "optimizeStep rs cov \<lparr> sumToOne = True, nonNegative = True \<rparr> w = Inr w1" by blast
  have l1: "length w1 = length w" using st by (rule length_optimizeStep)
  have f1: "(\<forall>x\<in>set w1. 0 \<le> x) \<and> sum_list w1 = 1"
    using st Suc.prems(1) by (rule optimizeStep_feasible)
  have ne1: "w1 \<noteq> []" using l1 Suc.prems(1) by auto
  have "\<exists>w'. optimizeLoop n rs cov t \<lparr> sumToOne = True, nonNegative = True \<rparr> w1 = Inr w'"
    using ne1 f1 Suc.prems(4,5,6) unfolding l1[symmetric] by (intro Suc.IH) simp_all
  then show ?case by (auto simp: st Let_def)
qed

lemma optimizePortfolio_succeeds:
  assumes "rs \<noteq> []" "length cov = length rs" "\<forall>row\<in>set cov. length row = length rs"
    and "\<forall>row\<in>set cov. \<forall>c\<in>set row. c < 100 / real (length rs)"
  shows "\<exists>w. optimizePortfolio rs cov t \<lparr> sumToOne = True, nonNegative = True \<rparr> = Inr w \<and>
           length w = length rs \<and> (\<forall>x\<in>set w. 0 \<le> x) \<and> sum_list w = 1"
proof -
  define n where "n = length rs"
  define w0 where "w0 = replicate n (1 / real n)"
  have n: "0 < n" using assms(1) by (simp add: n_def)
  have 1: "w0 \<noteq> []" "\<forall>x\<in>set w0. 0 \<le> x" "sum_list w0 = 1"
    using n by (simp_all add: w0_def sum_list_replicate)
  have l: "length w0 = n" by (simp add: w0_def)
  have 2: "length w0 \<le> length cov" by (simp add: l assms(2) n_def)
  have 3: "\<forall>row\<in>set (take (length w0) cov). length w0 \<le> length row"
    using assms(3) by (auto simp: l n_def dest: in_set_takeD)
  have 4: "\<forall>row\<in>set (take (length w0) cov). \<forall>c\<in>set (take (length w0) row). c < 100 / real (length w0)"
    using assms(4) by (auto simp: l n_def dest!: in_set_takeD)
  from optimizeLoop_succeeds[OF 1 2 3 4] obtain w where
    w: "optimizeLoop iterations rs cov t \<lparr> sumToOne = True, nonNegative = True \<rparr> w0 = Inr w"
    by blast
  from optimizeLoop_feasible[OF w 1(1)] 1(2,3)
  have "length w = length w0 \<and> (\<forall>x\<in>set w. 0 \<le> x) \<and> sum_list w = 1" by simp
  then show ?thesis
    using w by (simp add: optimizePortfolio_def Let_def n_def[symmetric] w0_def[symmetric] l)
qed

section \<open>Portfolio optimizer: the efficient frontier\<close>

lemma foldl_min_Min: "foldl min x ys = Min (set (x # ys))" for x :: real
proof (induction ys arbitrary: x)
  case Nil
  then show ?case by simp
next
  case (Cons y ys)
  have "foldl min x (y # ys) = Min (set (min x y # ys))" using Cons.IH by simp
  also have "\<dots> = Min (insert x (insert y (set ys)))"
    by (cases "ys = []") (simp_all add: min.assoc)
  finally show ?case by simp
qed

lemma foldl_max_Max: "foldl max x ys = Max (set (x # ys))" for x :: real
proof (induction ys arbitrary: x)
  case Nil
  then show ?case by simp
next
  case (Cons y ys)
  have "foldl max x (y # ys) = Max (set (max x y # ys))" using Cons.IH by simp
  also have "\<dots> = Max (insert x (insert y (set ys)))"
    by (cases "ys = []") (simp_all add: max.assoc)
  finally show ?case by simp
qed

lemma js_min_Min: "xs \<noteq> [] \<Longrightarrow> js_min xs = Some (Min (set xs))"
  by (cases xs) (simp_all add: js_min_def foldl_min_Min)

lemma js_max_Max: "xs \<noteq> [] \<Longrightarrow> js_max xs = Some (Max (set xs))"
  by (cases xs) (simp_all add: js_max_def foldl_max_Max)

lemma collect_map_Inr:
  "\<forall>x\<in>set xs. f x = Inr (g x) \<Longrightarrow> collect (map f xs) = Inr (map g xs)"
  by (induction xs) simp_all

lemma optimizeStep_no_TypeError:
  "length w \<le> length cov \<Longrightarrow> optimizeStep rs cov c w \<noteq> Inl TypeError"
  by (auto simp: optimizeStep_def calculateGradients_def Let_def split: sum.splits if_splits)

lemma optimizeStep_no_NoMoreDraws: "optimizeStep rs cov c w \<noteq> Inl NoMoreDraws"
  by (auto simp: optimizeStep_def calculateGradients_def Let_def split: sum.splits if_splits)

lemma optimizeLoop_failure:
  "length w \<le> length cov \<Longrightarrow> optimizeLoop n rs cov t c w = Inl e \<Longrightarrow> e = NotFinite"
proof (induction n arbitrary: w)
  case 0
  then show ?case by simp
next
  case (Suc n)
  show ?case
  proof (cases "optimizeStep rs cov c w")
    case (Inl e')
    with Suc.prems have "e' = e" by simp
    with Inl optimizeStep_no_TypeError[OF Suc.prems(1)] optimizeStep_no_NoMoreDraws
    show ?thesis by (cases e) auto
  next
    case (Inr w1)
    then have "length w1 = length w" by (rule length_optimizeStep)
    with Suc.prems(1) have l: "length w1 \<le> length cov" by simp
    from Suc.prems(2) Inr have "optimizeLoop n rs cov t c w1 = Inl e"
      by (auto simp: Let_def split: if_splits)
    from Suc.IH[OF l this] show ?thesis .
  qed
qed

lemma length_optimizeLoop:
  "optimizeLoop n rs cov t c w = Inr w' \<Longrightarrow> length w' = length w"
proof (induction n arbitrary: w)
  case 0
  then show ?case by simp
next
  case (Suc n)
  from Suc.prems obtain w1 where st: "optimizeStep rs cov c w = Inr w1"
    by (auto split: sum.splits)
  have l1: "length w1 = length w" using st by (rule length_optimizeStep)
  from Suc.prems have "w' = w1 \<or> optimizeLoop n rs cov t c w1 = Inr w'"
    by (auto simp: st Let_def split: if_splits)
  then show ?case using Suc.IH l1 by auto
qed

lemma optimizePortfolio_failure:
  "length rs \<le> length cov \<Longrightarrow> optimizePortfolio rs cov t c = Inl e \<Longrightarrow> e = NotFinite"
  unfolding optimizePortfolio_def Let_def by (rule optimizeLoop_failure) simp_all

lemma length_optimizePortfolio:
  "optimizePortfolio rs cov t c = Inr w \<Longrightarrow> length w = length rs"
  unfolding optimizePortfolio_def Let_def by (drule length_optimizeLoop) simp

lemma calculatePortfolioMetrics_returns:
  "length w \<le> length cov \<Longrightarrow> \<exists>m. calculatePortfolioMetrics w rs cov = Inr m"
  by (simp add: calculatePortfolioMetrics_def Let_def)

lemma frontierPoint_cases:
  assumes "length rs \<le> length cov"
  shows "\<exists>pt. frontierPoint rs cov rf t = Inr pt \<and>
           (\<forall>w. optimizePortfolio rs cov t \<lparr> sumToOne = True, nonNegative = True \<rparr> = Inr w \<longrightarrow>
                weights pt = Some w \<and>
                (\<exists>m. calculatePortfolioMetrics w rs cov = Inr m \<and>
                     return pt = return m \<and> risk pt = risk m \<and>
                     sharpe pt = calculateSharpeRatio (return m) (risk m) rf)) \<and>
           (\<forall>e. optimizePortfolio rs cov t \<lparr> sumToOne = True, nonNegative = True \<rparr> = Inl e \<longrightarrow>
                weights pt = None \<and> return pt = None \<and> risk pt = None \<and> sharpe pt = None)"
proof (cases "optimizePortfolio rs cov t \<lparr> sumToOne = True, nonNegative = True \<rparr>")
  case (Inl e)
  with assms have "e = NotFinite" by (simp add: optimizePortfolio_failure)
  with Inl show ?thesis by (simp add: frontierPoint_def)
next
  case (Inr w)
  then have "length w = length rs" by (rule length_optimizePortfolio)
  with assms have "length w \<le> length cov" by simp
  then obtain m where "calculatePortfolioMetrics w rs cov = Inr m"
    using calculatePortfolioMetrics_returns by blast
  with Inr show ?thesis by (simp add: frontierPoint_def)
qed

lemma frontierTarget_code:
  assumes "returns \<noteq> []" "2 \<le> points"
  shows "lift2 (\<lambda>lo st. lo + real i * st) (js_min returns)
           (divide_by (lift2 (-) (js_max returns) (js_min returns)) (real points - 1))
         = Some (frontierTarget returns points i)"
  using assms by (simp add: js_min_Min js_max_Max lift2_def divide_by_def frontierTarget_def)

lemma frontierTarget_mono:
  assumes "returns \<noteq> []" "2 \<le> points" "i \<le> j"
  shows "frontierTarget returns points i \<le> frontierTarget returns points j"
proof -
  have "Min (set returns) \<le> Max (set returns)" using assms(1) by simp
  then have "0 \<le> (Max (set returns) - Min (set returns)) / (real points - 1)"
    using assms(2) by simp
  moreover have "real i \<le> real j" using assms(3) by simp
  ultimately have "real i * ((Max (set returns) - Min (set returns)) / (real points - 1))
      \<le> real j * ((Max (set returns) - Min (set returns)) / (real points - 1))"
    by (intro mult_right_mono)
  then show ?thesis by (simp add: frontierTarget_def)
qed

text \<open>
  Claim C8. For a non-empty returns vector, a covariance matrix with a row for every
  asset and \<open>points \<ge> 2\<close>, \<open>generateEfficientFrontier\<close> returns exactly \<open>points\<close>
  frontier points. Point \<open>i\<close> carries the weights of the one call of
  \<open>optimizePortfolio\<close> with target return
  \<open>min + i * (max - min) / (points - 1)\<close>, the return and risk that
  \<open>calculatePortfolioMetrics\<close> gives for these weights, and their Sharpe ratio
  \<open>(return - riskFreeRate) / risk\<close>; when the optimizer leaves no finite weights all
  four fields are \<open>NaN\<close>. The targets start at the least return, end at the greatest
  and ascend.
\<close>

theorem efficientFrontier_points:
  assumes "returns \<noteq> []" "2 \<le> points" "length returns \<le> length covariance"
  shows "\<exists>frontier.
           generateEfficientFrontier returns covariance riskFreeRate points = Inr frontier \<and>
           length frontier = points \<and>
           (\<forall>i<points.
              (\<forall>w. optimizePortfolio returns covariance (Some (frontierTarget returns points i))
                      \<lparr> sumToOne = True, nonNegative = True \<rparr> = Inr w \<longrightarrow>
                   weights (frontier ! i) = Some w \<and>
                   (\<exists>m. calculatePortfolioMetrics w returns covariance = Inr m \<and>
                        return (frontier ! i) = return m \<and> risk (frontier ! i) = risk m \<and>
                        sharpe (frontier ! i) =
                          calculateSharpeRatio (return m) (risk m) riskFreeRate)) \<and>
              (\<forall>e. optimizePortfolio returns covariance (Some (frontierTarget returns points i))
                      \<lparr> sumToOne = True, nonNegative = True \<rparr> = Inl e \<longrightarrow>
                   weights (frontier ! i) = None \<and> return (frontier ! i) = None \<and>
                   risk (frontier ! i) = None \<and> sharpe (frontier ! i) = None)) \<and>
           frontierTarget returns points 0 = Min (set returns) \<and>
           frontierTarget returns points (points - 1) = Max (set returns) \<and>
           (\<forall>i j. i \<le> j \<longrightarrow>
              frontierTarget returns points i \<le> frontierTarget returns points j) \<and>
           (\<forall>a b. b \<noteq> 0 \<longrightarrow>
              calculateSharpeRatio (Some a) (Some b) riskFreeRate = Some ((a - riskFreeRate) / b))"
proof -
  let ?cons = "\<lparr> sumToOne = True, nonNegative = True \<rparr>"
  let ?P = "\<lambda>i pt.
      frontierPoint returns covariance riskFreeRate (Some (frontierTarget returns points i)) = Inr pt \<and>
      (\<forall>w. optimizePortfolio returns covariance (Some (frontierTarget returns points i)) ?cons = Inr w \<longrightarrow>
           weights pt = Some w \<and>
           (\<exists>m. calculatePortfolioMetrics w returns covariance = Inr m \<and>
                return pt = return m \<and> risk pt = risk m \<and>
                sharpe pt = calculateSharpeRatio (return m) (risk m) riskFreeRate)) \<and>
      (\<forall>e. optimizePortfolio returns covariance (Some (frontierTarget returns points i)) ?cons = Inl e \<longrightarrow>
           weights pt = None \<and> return pt = None \<and> risk pt = None \<and> sharpe pt = None)"
  have "\<forall>i. \<exists>pt. ?P i pt" using frontierPoint_cases[OF assms(3)] by blast
  from choice[OF this] obtain g where g: "\<forall>i. ?P i (g i)" ..
  have "generateEfficientFrontier returns covariance riskFreeRate points
      = collect (map (\<lambda>i. frontierPoint returns covariance riskFreeRate
                            (Some (frontierTarget returns points i))) [0..<points])"
    by (simp add: generateEfficientFrontier_def Let_def frontierTarget_code[OF assms(1,2)])
  also have "\<dots> = Inr (map g [0..<points])"
    using g by (intro collect_map_Inr) simp
  finally have fr: "generateEfficientFrontier returns covariance riskFreeRate points
      = Inr (map g [0..<points])" .
  have t0: "frontierTarget returns points 0 = Min (set returns)"
    by (simp add: frontierTarget_def)
  have "real (points - 1) = real points - 1" using assms(2) by simp
  moreover have "real points - 1 \<noteq> 0" using assms(2) by simp
  ultimately have t1: "frontierTarget returns points (points - 1) = Max (set returns)"
    by (simp add: frontierTarget_def)
  have mono: "\<forall>i j. i \<le> j \<longrightarrow>
      frontierTarget returns points i \<le> frontierTarget returns points j"
    using frontierTarget_mono[OF assms(1,2)] by blast
  have sh: "\<forall>a b. b \<noteq> 0 \<longrightarrow>
      calculateSharpeRatio (Some a) (Some b) riskFreeRate = Some ((a - riskFreeRate) / b)"
    by (simp add: calculateSharpeRatio_def divide_by_def)
  show ?thesis
    apply (rule exI[of _ "map g [0..<points]"])
    apply (intro conjI)
          apply (rule fr)
         apply simp
    using g apply simp
       apply (rule t0)
      apply (rule t1)
     apply (rule mono)
    apply (rule sh)
    done
qed

text \<open>Two assets and two frontier points.\<close>

theorem efficientFrontier_points_witness:
  "\<exists>frontier. generateEfficientFrontier [1 / 10, 3 / 20] [[4 / 100, 1 / 100], [1 / 100, 9 / 100]]
        (3 / 100) 2 = Inr frontier \<and> length frontier = 2"
  using efficientFrontier_points [of "[1 / 10, 3 / 20]" 2 "[[4 / 100, 1 / 100], [1 / 100, 9 / 100]]" "3 / 100"]
  by auto

end
